theory Spec2Isabelle
  imports Main "HOL-Library.Word"
begin

section \<open>Data model\<close>

text \<open>
  The package \<^verbatim>\<open>poloniex\<close> is a thin client: every operation of the type \<^verbatim>\<open>Poloniex\<close> builds
  calls of its client (\<^verbatim>\<open>b.client.do\<close>, \<^verbatim>\<open>b.client.doCommand\<close>, \<^verbatim>\<open>b.client.wsConnect\<close>) and
  decodes what comes back. The client itself and the JSON decoder are not part of the
  modelled files, so each operation takes them as arguments; the network, the clock and
  the client's fields are an explicit world \<open>'w\<close> that every call of the client may change.

  A Go \<^verbatim>\<open>error\<close> is modelled by the message it carries, a \<^verbatim>\<open>[]byte\<close> body by a string,
  and a result \<^verbatim>\<open>(v, err)\<close> by a sum: \<open>Inl err\<close> when \<^verbatim>\<open>err != nil\<close>, \<open>Inr v\<close> otherwise.
\<close>

type_synonym bytes = string

datatype error = errors_New (message: string)

text \<open>\<^verbatim>\<open>decimal.Decimal\<close>: a coefficient and a power of ten.\<close>

type_synonym decimal = "int \<times> int"

record OrderBook =
  Asks :: "decimal list list"
  Bids :: "decimal list list"
  IsFrozen :: int
  Error :: string
  Seq :: int

record 'p Currencies =
  Pair :: 'p

text \<open>\<^verbatim>\<open>time.Time\<close>, of which only \<^verbatim>\<open>Unix()\<close> is read.\<close>

record Time =
  unixSec :: int
  nanos :: nat

definition Unix :: "Time \<Rightarrow> int" where
  "Unix t = unixSec t"

text \<open>
  \<^verbatim>\<open>func (c *client) do(method, resource string, payload map[string]string, authNeeded bool)
  ([]byte, error)\<close>; a \<^verbatim>\<open>nil\<close> payload is \<open>None\<close>.
\<close>

type_synonym 'w client_do =
  "string \<Rightarrow> string \<Rightarrow> (string \<rightharpoonup> string) option \<Rightarrow> bool \<Rightarrow> 'w \<Rightarrow> (error + bytes) \<times> 'w"


section \<open>Library functions the operations call\<close>

subsection \<open>Decimal rendering: \<^verbatim>\<open>%d\<close> and \<^verbatim>\<open>strconv.FormatUint(_, 10)\<close>\<close>

definition digit :: "nat \<Rightarrow> char" where
  "digit d = ''0123456789'' ! d"

function FormatUint :: "nat \<Rightarrow> string" where
  "FormatUint n = (if n < 10 then [digit n] else FormatUint (n div 10) @ [digit (n mod 10)])"
  by pat_completeness auto

termination
  by (relation "measure (\<lambda>n. n)") auto

declare FormatUint.simps [simp del]

definition Sprintf_d :: "int \<Rightarrow> string" where
  "Sprintf_d i = (if i < 0 then CHR ''-'' # FormatUint (nat (- i)) else FormatUint (nat i))"

subsection \<open>\<^verbatim>\<open>strings.ToUpper\<close>\<close>

text \<open>
  Go's \<^verbatim>\<open>strings.ToUpper\<close> has two paths. A string of ASCII bytes only is mapped byte by
  byte (\<^verbatim>\<open>if 'a' <= c && c <= 'z' { c -= 'a' - 'A' }\<close>); any other string goes through
  \<^verbatim>\<open>strings.Map(unicode.ToUpper, s)\<close>, which depends on the Unicode tables and is the
  argument \<open>U\<close> here.
\<close>

definition upper_byte :: "char \<Rightarrow> char" where
  "upper_byte c =
     (let n = (of_char c :: nat) in if 97 \<le> n \<and> n \<le> 122 then char_of (n - 32) else c)"

definition isASCII :: "string \<Rightarrow> bool" where
  "isASCII s = list_all (\<lambda>c. (of_char c :: nat) < 128) s"

definition ToUpper :: "(string \<Rightarrow> string) \<Rightarrow> string \<Rightarrow> string" where
  "ToUpper U s = (if isASCII s then map upper_byte s else U s)"

section \<open>Public market data\<close>

definition GetTickers ::
  "'w client_do \<Rightarrow> (bytes \<Rightarrow> error + 't) \<Rightarrow> 'w \<Rightarrow> (error + 't) \<times> 'w" where
  "GetTickers client_do json_Unmarshal w =
     (case client_do ''GET'' ''public?command=returnTicker'' None False w of
        (Inl err, w') \<Rightarrow> (Inl err, w')
      | (Inr r, w') \<Rightarrow>
          (case json_Unmarshal r of
             Inl err \<Rightarrow> (Inl err, w')
           | Inr tickers \<Rightarrow> (Inr tickers, w')))"

definition GetVolumes ::
  "'w client_do \<Rightarrow> (bytes \<Rightarrow> error + 'v) \<Rightarrow> 'w \<Rightarrow> (error + 'v) \<times> 'w" where
  "GetVolumes client_do json_Unmarshal w =
     (case client_do ''GET'' ''public?command=return24hVolume'' None False w of
        (Inl err, w') \<Rightarrow> (Inl err, w')
      | (Inr r, w') \<Rightarrow>
          (case json_Unmarshal r of
             Inl err \<Rightarrow> (Inl err, w')
           | Inr vc \<Rightarrow> (Inr vc, w')))"

definition GetCurrencies ::
  "'w client_do \<Rightarrow> (bytes \<Rightarrow> error + 'p) \<Rightarrow> 'w \<Rightarrow> (error + 'p Currencies) \<times> 'w" where
  "GetCurrencies client_do json_Unmarshal w =
     (case client_do ''GET'' ''public?command=returnCurrencies'' None False w of
        (Inl err, w') \<Rightarrow> (Inl err, w')
      | (Inr r, w') \<Rightarrow>
          (case json_Unmarshal r of
             Inl err \<Rightarrow> (Inl err, w')
           | Inr p \<Rightarrow> (Inr \<lparr>Pair = p\<rparr>, w')))"

text \<open>
  \<^verbatim>\<open>GetOrderBook\<close> rewrites \<^verbatim>\<open>cat\<close> and \<^verbatim>\<open>depth\<close> before it builds the request; the rewritten
  \<^verbatim>\<open>cat\<close> is then never read (the source marks it "not implemented"). \<^verbatim>\<open>depth\<close> is a Go
  \<^verbatim>\<open>int\<close> that is only compared with constants and printed, so an \<open>int\<close> models it at
  either width.
\<close>

definition GetOrderBook ::
  "(string \<Rightarrow> string) \<Rightarrow> 'w client_do \<Rightarrow> (bytes \<Rightarrow> error + OrderBook) \<Rightarrow>
   string \<Rightarrow> string \<Rightarrow> int \<Rightarrow> 'w \<Rightarrow> (error + OrderBook) \<times> 'w" where
  "GetOrderBook U client_do json_Unmarshal market cat depth w =
     (let cat = (if cat \<noteq> ''bid'' \<and> cat \<noteq> ''ask'' \<and> cat \<noteq> ''both'' then ''both'' else cat);
          depth = (if depth > 100 then 100 else depth);
          depth = (if depth < 1 then 1 else depth)
      in case client_do ''GET''
             (''public?command=returnOrderBook&currencyPair='' @ ToUpper U market
                @ ''&depth='' @ Sprintf_d depth) None False w of
           (Inl err, w') \<Rightarrow> (Inl err, w')
         | (Inr r, w') \<Rightarrow>
             (case json_Unmarshal r of
                Inl err \<Rightarrow> (Inl err, w')
              | Inr orderBook \<Rightarrow>
                  if Error orderBook \<noteq> [] then (Inl (errors_New (Error orderBook)), w')
                  else (Inr orderBook, w')))"

definition GetAllOrderBook ::
  "'w client_do \<Rightarrow> (bytes \<Rightarrow> error + (string \<rightharpoonup> OrderBook)) \<Rightarrow>
   string \<Rightarrow> int \<Rightarrow> 'w \<Rightarrow> (error + (string \<rightharpoonup> OrderBook)) \<times> 'w" where
  "GetAllOrderBook client_do json_Unmarshal cat depth w =
     (let cat = (if cat \<noteq> ''bid'' \<and> cat \<noteq> ''ask'' \<and> cat \<noteq> ''both'' then ''both'' else cat);
          depth = (if depth > 100 then 100 else depth);
          depth = (if depth < 1 then 1 else depth)
      in case client_do ''GET''
             (''public?command=returnOrderBook&currencyPair=all&depth='' @ Sprintf_d depth)
             None False w of
           (Inl err, w') \<Rightarrow> (Inl err, w')
         | (Inr r, w') \<Rightarrow>
             (case json_Unmarshal r of
                Inl err \<Rightarrow> (Inl err, w')
              | Inr orderBook \<Rightarrow> (Inr orderBook, w')))"

definition ChartData ::
  "(string \<Rightarrow> string) \<Rightarrow> 'w client_do \<Rightarrow> (bytes \<Rightarrow> error + 'c list) \<Rightarrow>
   string \<Rightarrow> int \<Rightarrow> Time \<Rightarrow> Time \<Rightarrow> 'w \<Rightarrow> (error + 'c list) \<times> 'w" where
  "ChartData U client_do json_Unmarshal currencyPair period start end w =
     (case client_do ''GET''
             (''public?command=returnChartData&currencyPair='' @ ToUpper U currencyPair
                @ ''&period='' @ Sprintf_d period
                @ ''&start='' @ Sprintf_d (Unix start)
                @ ''&end='' @ Sprintf_d (Unix end)) None False w of
        (Inl err, w') \<Rightarrow> (Inl err, w')
      | (Inr r, w') \<Rightarrow>
          (case json_Unmarshal r of
             Inl err \<Rightarrow> (Inl err, w')
           | Inr candles \<Rightarrow> (Inr candles, w')))"

section \<open>Observing the requests an operation issues\<close>

text \<open>
  To speak of the request an operation issues, the client's \<^verbatim>\<open>do\<close> is wrapped so that
  every call appends its four arguments to a log kept next to the world. The wrapper
  changes neither the answer nor the world of the wrapped function.
\<close>

record call =
  http_method :: string
  resource :: string
  payload :: "(string \<rightharpoonup> string) option"
  authNeeded :: bool

definition recording :: "'w client_do \<Rightarrow> (call list \<times> 'w) client_do" where
  "recording client_do m r p a s =
     (case s of (log, w) \<Rightarrow>
        (case client_do m r p a w of
           (res, w') \<Rightarrow>
             (res, (log @ [\<lparr>http_method = m, resource = r, payload = p, authNeeded = a\<rparr>], w'))))"

definition issued :: "'a \<times> (call list \<times> 'w) \<Rightarrow> call list" where
  "issued x = fst (snd x)"

text \<open>An anonymous GET of \<^verbatim>\<open>public?command=\<close> followed by the command and its parameters.\<close>

definition public_GET :: "string \<Rightarrow> call" where
  "public_GET r =
     \<lparr>http_method = ''GET'', resource = ''public?command='' @ r, payload = None, authNeeded = False\<rparr>"

text \<open>The depth clamped into 1..100: above 100 it is 100, below 1 it is 1.\<close>

definition clamp_depth :: "int \<Rightarrow> int" where
  "clamp_depth depth = (if depth > 100 then 100 else if depth < 1 then 1 else depth)"


section \<open>An answer whose book carries an error\<close>

text \<open>
  An answer to \<^verbatim>\<open>returnOrderBook&currencyPair=all\<close> in which the book of one market has a
  non-empty \<^verbatim>\<open>error\<close> field, the client that returns it, and what \<^verbatim>\<open>json.Unmarshal\<close> makes
  of it at the type \<^verbatim>\<open>map[string]OrderBook\<close>.
\<close>

definition frozen_book :: OrderBook where
  "frozen_book = \<lparr>Asks = [], Bids = [], IsFrozen = 0, Error = ''Market frozen.'', Seq = 7\<rparr>"

definition frozen_body :: bytes where
  \<open>frozen_body =
     ''{"BTC_ETH":{"asks":[],"bids":[],"isFrozen":"0","error":"Market frozen.","seq":7}}''\<close>

definition frozen_answer :: "nat client_do" where
  "frozen_answer m r p a w = (Inr frozen_body, Suc w)"

definition frozen_Unmarshal :: "bytes \<Rightarrow> error + (string \<rightharpoonup> OrderBook)" where
  "frozen_Unmarshal r =
     (if r = frozen_body then Inr [''BTC_ETH'' \<mapsto> frozen_book]
      else Inl (errors_New ''unexpected end of JSON input''))"

section \<open>Trading operations that answer per currency pair\<close>

text \<open>
  \<^verbatim>\<open>OpenOrder\<close> of \<^verbatim>\<open>order.go\<close>; \<open>'f\<close> stands for \<^verbatim>\<open>float64\<close>, whose values are only
  carried. \<^verbatim>\<open>Trade\<close> is declared outside the modelled files and is a type variable.
\<close>

record 'f OpenOrder =
  OrderNumber :: int
  Type :: string
  Rate :: 'f
  Amount :: 'f
  Total :: 'f



section \<open>Subscriptions\<close>

text \<open>
  \<^verbatim>\<open>b.client.wsConnect(topic, handler, stopCh)\<close> runs one connect cycle and answers
  \<^verbatim>\<open>(cont, err)\<close>. It may block for ever; then the model's answer is \<open>None\<close>. The handler
  type \<open>'h\<close>, the channel types \<open>'u\<close> and \<open>'c\<close> and the handler constructors
  (\<^verbatim>\<open>makeOBookSubHandler\<close>, \<^verbatim>\<open>makeTickerSubHandler\<close>) are arguments.
\<close>

type_synonym ('h, 'c, 'w) client_wsConnect =
  "string \<Rightarrow> 'h \<Rightarrow> 'c \<Rightarrow> 'w \<Rightarrow> ((bool \<times> error option) \<times> 'w) option"

text \<open>
  The \<^verbatim>\<open>for\<close> loop of each subscribe call has no bound, so the call is a partial function:
  \<open>None\<close> when it never returns, \<open>Some (err, w')\<close> when it returns \<^verbatim>\<open>err\<close> in world \<open>w'\<close>.
\<close>

partial_function (option) SubscribeOrderBook ::
  "('h, 'c, 'w) client_wsConnect \<Rightarrow> ('u \<Rightarrow> 'h) \<Rightarrow> string \<Rightarrow> 'u \<Rightarrow> 'c \<Rightarrow> 'w \<Rightarrow>
   (error option \<times> 'w) option" where
  "SubscribeOrderBook client_wsConnect makeOBookSubHandler symbol updatesCh stopCh w =
     (case client_wsConnect symbol (makeOBookSubHandler updatesCh) stopCh w of
        None \<Rightarrow> None
      | Some ((cont, err), w') \<Rightarrow>
          if \<not> cont then Some (err, w')
          else SubscribeOrderBook client_wsConnect makeOBookSubHandler symbol updatesCh stopCh w')"

partial_function (option) SubscribeTicker ::
  "('h, 'c, 'w) client_wsConnect \<Rightarrow> ('u \<Rightarrow> 'h) \<Rightarrow> 'u \<Rightarrow> 'c \<Rightarrow> 'w \<Rightarrow>
   (error option \<times> 'w) option" where
  "SubscribeTicker client_wsConnect makeTickerSubHandler updatesCh stopCh w =
     (case client_wsConnect ''ticker'' (makeTickerSubHandler updatesCh) stopCh w of
        None \<Rightarrow> None
      | Some ((cont, err), w') \<Rightarrow>
          if \<not> cont then Some (err, w')
          else SubscribeTicker client_wsConnect makeTickerSubHandler updatesCh stopCh w')"

text \<open>
  \<open>continued cycle n w\<close> is the world after \<open>n\<close> connect cycles from \<open>w\<close>, each of which
  returned and asked to continue; it is \<open>None\<close> when one of them did not.
\<close>

fun continued ::
  "('w \<Rightarrow> ((bool \<times> error option) \<times> 'w) option) \<Rightarrow> nat \<Rightarrow> 'w \<Rightarrow> 'w option" where
  "continued cycle 0 w = Some w"
| "continued cycle (Suc n) w =
     (case cycle w of
        Some ((True, err), w') \<Rightarrow> continued cycle n w'
      | _ \<Rightarrow> None)"

text \<open>
  A client for the examples: the world counts the connect cycles; the first two ask to
  continue, the third stops with an error.
\<close>

definition third_cycle_stops :: "(string, unit, nat) client_wsConnect" where
  "third_cycle_stops topic handler stopCh w =
     Some ((w < 2, if w < 2 then None else Some (errors_New ''connection lost'')), Suc w)"

section \<open>The connect cycle, from the specification\<close>

text \<open>
  \<^verbatim>\<open>client.wsConnect\<close> is not among the modelled files. What follows is the connect cycle as
  the specification's Subscription Controller describes it (states Connecting, Subscribed,
  Reconnecting, Stopped), for one subscription: the world holds its control signal, what
  the endpoint will do at the coming connection attempts, and the updates handed to the
  caller so far.
\<close>

text \<open>
  Modelled from the spec: the instructions of the control signal, "a single channel
  carrying stop vs reset"; \<^verbatim>\<open>wsConnect\<close>, which reads them, is missing.
\<close>

datatype instruction = Stop | Reset

text \<open>
  Modelled from the spec: an inbound frame of the Stream Connection (missing): a frame
  tagged with its topic, a frame that fails to decode, or a failed read.
\<close>

datatype 'm frame = Frame string 'm | Malformed | ReadError error

text \<open>
  Modelled from the spec: the outcome of \<^verbatim>\<open>connect()\<close> of the Stream Connection (missing):
  a connect or handshake failure, or a connection and the frames it will carry.
\<close>

datatype 'm attempt = Refused error | Accepted "'m frame list"

text \<open>
  Modelled from the spec: the world of one subscription of the missing client: the
  instructions pending on the control signal (oldest first), whether the signal source is
  closed, the outcomes of the coming connection attempts, and the updates delivered.
\<close>

record 'm stream =
  control :: "instruction list"
  control_closed :: bool
  endpoint :: "'m attempt list"
  delivered :: "'m list"

text \<open>
  Modelled from the spec: one look at the control signal by the missing read loop. A
  pending instruction is taken; with none pending, a closed source is a stop ("explicit
  value, or the signal source being closed/exhausted").
\<close>

definition poll :: "'m stream \<Rightarrow> instruction option \<times> 'm stream" where
  "poll w =
     (case control w of
        i # rest \<Rightarrow> (Some i, w\<lparr>control := rest\<rparr>)
      | [] \<Rightarrow> (if control_closed w then Some Stop else None, w))"

text \<open>
  Modelled from the spec: "controlSignal already indicates stop", for the missing
  \<^verbatim>\<open>wsConnect\<close>: the next look at the signal would give a stop.
\<close>

definition indicates_stop :: "'m stream \<Rightarrow> bool" where
  "indicates_stop w = (fst (poll w) = Some Stop)"

text \<open>
  Modelled from the spec: \<^verbatim>\<open>connect()\<close> of the missing Stream Connection. The handshake
  attempt expires "within a bounded window", so an endpoint with no answer left is a
  failure as well.
\<close>

definition connect :: "'m stream \<Rightarrow> 'm attempt \<times> 'm stream" where
  "connect w =
     (case endpoint w of
        [] \<Rightarrow> (Refused (errors_New ''handshake timed out''), w)
      | a # rest \<Rightarrow> (a, w\<lparr>endpoint := rest\<rparr>))"

text \<open>
  Modelled from the spec: the state Subscribed of the missing \<^verbatim>\<open>wsConnect\<close>. The loop
  "must poll both the socket and the control signal": a stop ends the cycle for good and
  cleanly, a reset or a failed read ends it with continue (Reconnecting). A frame goes to
  the handler when it is of the subscribed topic and is dropped otherwise, as a malformed
  one is. With no instruction and no frame the loop blocks.
\<close>

fun read_loop ::
  "string \<Rightarrow> ('m \<Rightarrow> 'm stream \<Rightarrow> 'm stream) \<Rightarrow> 'm frame list \<Rightarrow> 'm stream \<Rightarrow>
   ((bool \<times> error option) \<times> 'm stream) option" where
  "read_loop topic handler [] w =
     (case poll w of
        (Some Stop, w') \<Rightarrow> Some ((False, None), w')
      | (Some Reset, w') \<Rightarrow> Some ((True, None), w')
      | (None, w') \<Rightarrow> None)"
| "read_loop topic handler (f # fs) w =
     (case poll w of
        (Some Stop, w') \<Rightarrow> Some ((False, None), w')
      | (Some Reset, w') \<Rightarrow> Some ((True, None), w')
      | (None, w') \<Rightarrow>
          (case f of
             Frame t m \<Rightarrow> read_loop topic handler fs (if t = topic then handler m w' else w')
           | Malformed \<Rightarrow> read_loop topic handler fs w'
           | ReadError e \<Rightarrow> Some ((True, Some e), w')))"

text \<open>
  Modelled from the spec: \<^verbatim>\<open>client.wsConnect\<close> (missing), one pass from Connecting to
  Reconnecting (continue) or Stopped (do not continue). "Connecting \<rightarrow> Stopped: on
  connect/handshake failure AND controlSignal already indicates stop", and the failure is
  the error returned; a failure without a stop is absorbed and drives a reconnect; a
  connection leads to Subscribed.
\<close>

definition connect_cycle ::
  "('m \<Rightarrow> 'm stream \<Rightarrow> 'm stream, 'c, 'm stream) client_wsConnect" where
  "connect_cycle topic handler controlSignal w =
     (case connect w of
        (Refused e, w') \<Rightarrow> Some ((\<not> indicates_stop w', Some e), w')
      | (Accepted fs, w') \<Rightarrow> read_loop topic handler fs w')"

text \<open>
  Modelled from the spec: the handler that \<^verbatim>\<open>makeOBookSubHandler\<close> and
  \<^verbatim>\<open>makeTickerSubHandler\<close> (missing) build for an updates channel: it hands the update to
  the caller.
\<close>

definition deliver :: "'u \<Rightarrow> 'm \<Rightarrow> 'm stream \<Rightarrow> 'm stream" where
  "deliver updatesCh m w = w\<lparr>delivered := delivered w @ [m]\<rparr>"

text \<open>
  Two worlds for the examples: a stop pending and an endpoint that refuses, and a closed
  signal and an endpoint that accepts and has a frame ready.
\<close>

definition stop_pending_refused :: "nat stream" where
  "stop_pending_refused =
     \<lparr>control = [Stop], control_closed = False,
      endpoint = [Refused (errors_New ''connection refused'')], delivered = [5]\<rparr>"

definition closed_accepted :: "nat stream" where
  "closed_accepted =
     \<lparr>control = [], control_closed = True,
      endpoint = [Accepted [Frame ''BTC_ETH'' 6]], delivered = [5]\<rparr>"

section \<open>Signed commands, from the specification\<close>

text \<open>
  \<^verbatim>\<open>client.doCommand\<close> and the nonce it sends are not among the modelled files. What follows
  is the specification's Nonce Source and Command Dispatcher.
\<close>







section \<open>Properties: the requests of the public operations\<close>

lemma GetTickers_issued:
  "issued (GetTickers (recording cd) un (log, w)) = log @ [public_GET ''returnTicker'']"
  by (simp add: GetTickers_def recording_def issued_def public_GET_def
      split: prod.splits sum.splits)

lemma GetVolumes_issued:
  "issued (GetVolumes (recording cd) un (log, w)) = log @ [public_GET ''return24hVolume'']"
  by (simp add: GetVolumes_def recording_def issued_def public_GET_def
      split: prod.splits sum.splits)

lemma GetCurrencies_issued:
  "issued (GetCurrencies (recording cd) un (log, w)) = log @ [public_GET ''returnCurrencies'']"
  by (simp add: GetCurrencies_def recording_def issued_def public_GET_def
      split: prod.splits sum.splits)

lemma GetOrderBook_issued:
  "issued (GetOrderBook U (recording cd) un market cat depth (log, w)) =
     log @ [public_GET (''returnOrderBook&currencyPair='' @ ToUpper U market
                          @ ''&depth='' @ Sprintf_d (clamp_depth depth))]"
  by (simp add: GetOrderBook_def recording_def issued_def public_GET_def clamp_depth_def
      Let_def split: prod.splits sum.splits)

lemma GetAllOrderBook_issued:
  "issued (GetAllOrderBook (recording cd) un cat depth (log, w)) =
     log @ [public_GET (''returnOrderBook&currencyPair=all&depth=''
                          @ Sprintf_d (clamp_depth depth))]"
  by (simp add: GetAllOrderBook_def recording_def issued_def public_GET_def clamp_depth_def
      Let_def split: prod.splits sum.splits)

lemma ChartData_issued:
  "issued (ChartData U (recording cd) un cp period start end (log, w)) =
     log @ [public_GET (''returnChartData&currencyPair='' @ ToUpper U cp
                          @ ''&period='' @ Sprintf_d period
                          @ ''&start='' @ Sprintf_d (Unix start)
                          @ ''&end='' @ Sprintf_d (Unix end))]"
  by (simp add: ChartData_def recording_def issued_def public_GET_def
      split: prod.splits sum.splits)

lemma GetOrderBook_cat:
  "GetOrderBook U cd un market cat depth w = GetOrderBook U cd un market cat' depth w"
  by (simp add: GetOrderBook_def Let_def)

lemma GetAllOrderBook_cat:
  "GetAllOrderBook cd un cat depth w = GetAllOrderBook cd un cat' depth w"
  by (simp add: GetAllOrderBook_def Let_def)



subsection \<open>Letter case\<close>






subsection \<open>Request, depth and letter case of the public operations\<close>

text \<open>
  C7. Every public market-data operation (\<^verbatim>\<open>GetTickers\<close>, \<^verbatim>\<open>GetVolumes\<close>, \<^verbatim>\<open>GetCurrencies\<close>,
  \<^verbatim>\<open>GetOrderBook\<close>, \<^verbatim>\<open>GetAllOrderBook\<close>, \<^verbatim>\<open>ChartData\<close>) issues one request, whatever the
  client answers: a GET with no payload and no authentication, whose resource is
  \<^verbatim>\<open>public?command=\<close> followed by the command name and its parameters.
\<close>

theorem public_operations_issue_anonymous_GET:
  "issued (GetTickers (recording cd) un1 (log, w)) = log @ [public_GET ''returnTicker'']
   \<and> issued (GetVolumes (recording cd) un2 (log, w)) = log @ [public_GET ''return24hVolume'']
   \<and> issued (GetCurrencies (recording cd) un3 (log, w)) = log @ [public_GET ''returnCurrencies'']
   \<and> issued (GetOrderBook U (recording cd) un4 market cat depth (log, w)) =
        log @ [public_GET (''returnOrderBook&currencyPair='' @ ToUpper U market
                             @ ''&depth='' @ Sprintf_d (clamp_depth depth))]
   \<and> issued (GetAllOrderBook (recording cd) un5 cat depth (log, w)) =
        log @ [public_GET (''returnOrderBook&currencyPair=all&depth=''
                             @ Sprintf_d (clamp_depth depth))]
   \<and> issued (ChartData U (recording cd) un6 currencyPair period start end (log, w)) =
        log @ [public_GET (''returnChartData&currencyPair='' @ ToUpper U currencyPair
                             @ ''&period='' @ Sprintf_d period
                             @ ''&start='' @ Sprintf_d (Unix start)
                             @ ''&end='' @ Sprintf_d (Unix end))]
   \<and> http_method (public_GET r) = ''GET'' \<and> payload (public_GET r) = None
   \<and> \<not> authNeeded (public_GET r)
   \<and> take 15 (resource (public_GET r)) = ''public?command=''
   \<and> drop 15 (resource (public_GET r)) = r"
proof -
  have "http_method (public_GET r) = ''GET''" "payload (public_GET r) = None"
    "\<not> authNeeded (public_GET r)" "take 15 (resource (public_GET r)) = ''public?command=''"
    "drop 15 (resource (public_GET r)) = r"
    by (simp_all add: public_GET_def)
  then show ?thesis
    by (simp only: GetTickers_issued GetVolumes_issued GetCurrencies_issued
        GetOrderBook_issued GetAllOrderBook_issued ChartData_issued simp_thms)
qed

theorem public_operations_issue_anonymous_GET_witness:
  "issued (GetTickers (recording (\<lambda>m r p a w. (Inl (errors_New ''timeout''), Suc w)))
             (\<lambda>r. Inr r) ([], 0 :: nat)) =
     [\<lparr>http_method = ''GET'', resource = ''public?command=returnTicker'', payload = None,
       authNeeded = False\<rparr>]"
  by (simp add: public_operations_issue_anonymous_GET [THEN conjunct1] public_GET_def)

text \<open>
  C8. \<^verbatim>\<open>GetOrderBook\<close> and \<^verbatim>\<open>GetAllOrderBook\<close> put into the request the given depth clamped
  into 1..100 (above 100 it becomes 100, below 1 it becomes 1), and \<^verbatim>\<open>cat\<close> changes
  nothing: with any two values of \<^verbatim>\<open>cat\<close> the call is the same call, request, result
  and world.
\<close>

theorem depth_clamped_and_cat_ignored:
  "issued (GetOrderBook U (recording cd) un market cat depth (log, w)) =
     log @ [public_GET (''returnOrderBook&currencyPair='' @ ToUpper U market
                          @ ''&depth='' @ Sprintf_d (clamp_depth depth))]
   \<and> issued (GetAllOrderBook (recording cd) un' cat depth (log, w)) =
       log @ [public_GET (''returnOrderBook&currencyPair=all&depth=''
                            @ Sprintf_d (clamp_depth depth))]
   \<and> clamp_depth depth = (if depth > 100 then 100 else if depth < 1 then 1 else depth)
   \<and> 1 \<le> clamp_depth depth \<and> clamp_depth depth \<le> 100
   \<and> GetOrderBook U cd0 un market cat depth w0 = GetOrderBook U cd0 un market cat' depth w0
   \<and> GetAllOrderBook cd0 un' cat depth w0 = GetAllOrderBook cd0 un' cat' depth w0"
proof -
  have "clamp_depth depth = (if depth > 100 then 100 else if depth < 1 then 1 else depth)"
    "1 \<le> clamp_depth depth" "clamp_depth depth \<le> 100"
    by (simp_all add: clamp_depth_def)
  moreover have
    "GetOrderBook U cd0 un market cat depth w0 = GetOrderBook U cd0 un market cat' depth w0"
    by (rule GetOrderBook_cat)
  moreover have
    "GetAllOrderBook cd0 un' cat depth w0 = GetAllOrderBook cd0 un' cat' depth w0"
    by (rule GetAllOrderBook_cat)
  ultimately show ?thesis
    using GetOrderBook_issued [of U cd un market cat depth log w]
      GetAllOrderBook_issued [of cd un' cat depth log w]
    by simp
qed

theorem depth_clamped_and_cat_ignored_witness:
  "issued (GetAllOrderBook (recording (\<lambda>m r p a w. (Inl (errors_New ''timeout''), Suc w)))
             (\<lambda>r. Inl (errors_New r)) ''bid'' 5000 ([], 0 :: nat)) =
     [public_GET ''returnOrderBook&currencyPair=all&depth=100'']
   \<and> issued (GetAllOrderBook (recording (\<lambda>m r p a w. (Inl (errors_New ''timeout''), Suc w)))
             (\<lambda>r. Inl (errors_New r)) ''bid'' (- 3) ([], 0 :: nat)) =
     [public_GET ''returnOrderBook&currencyPair=all&depth=1'']"
proof -
  have "Sprintf_d 100 = ''100''" and "Sprintf_d 1 = ''1''"
    by code_simp+
  then show ?thesis
    by (simp add: depth_clamped_and_cat_ignored [THEN conjunct2, THEN conjunct1]
        clamp_depth_def)
qed



section \<open>Properties: the error field of an order book\<close>

text \<open>\<^verbatim>\<open>GetOrderBook\<close> with its two rewrites of \<^verbatim>\<open>depth\<close> folded into \<open>clamp_depth\<close>.\<close>

lemma GetOrderBook_clamped:
  "GetOrderBook U client_do json_Unmarshal market cat depth w =
     (case client_do ''GET''
             (''public?command=returnOrderBook&currencyPair='' @ ToUpper U market
                @ ''&depth='' @ Sprintf_d (clamp_depth depth)) None False w of
        (Inl err, w') \<Rightarrow> (Inl err, w')
      | (Inr r, w') \<Rightarrow>
          (case json_Unmarshal r of
             Inl err \<Rightarrow> (Inl err, w')
           | Inr orderBook \<Rightarrow>
               if Error orderBook \<noteq> [] then (Inl (errors_New (Error orderBook)), w')
               else (Inr orderBook, w')))"
proof -
  have "(if (if depth > 100 then 100 else depth) < 1 then 1
         else (if depth > 100 then 100 else depth)) = clamp_depth depth"
    by (simp add: clamp_depth_def)
  then show ?thesis
    by (simp add: GetOrderBook_def Let_def)
qed

text \<open>
  \<^verbatim>\<open>GetOrderBook\<close> reads the \<^verbatim>\<open>error\<close> field of the decoded book: a non-empty field makes the
  call fail with that message, whatever else the body holds.
\<close>

lemma GetOrderBook_error_field:
  assumes "client_do ''GET''
             (''public?command=returnOrderBook&currencyPair='' @ ToUpper U market
                @ ''&depth='' @ Sprintf_d (clamp_depth depth)) None False w = (Inr r, w')"
    and "json_Unmarshal r = Inr orderBook"
    and "Error orderBook \<noteq> []"
  shows "GetOrderBook U client_do json_Unmarshal market cat depth w =
           (Inl (errors_New (Error orderBook)), w')"
  using assms by (simp add: GetOrderBook_clamped)

text \<open>
  C1. A public order-book fetch whose body decodes and carries a non-empty error field
  returns that error and no success result. \<^verbatim>\<open>GetAllOrderBook\<close> does not: it decodes a map
  of books and never reads their \<^verbatim>\<open>error\<close> fields, so on the body \<open>frozen_body\<close> it returns
  the decoded map, error field included, and no error.
\<close>

theorem GetAllOrderBook_ignores_error_field:
  "GetAllOrderBook frozen_answer frozen_Unmarshal ''both'' 50 0 =
     (Inr [''BTC_ETH'' \<mapsto> frozen_book], 1)
   \<and> Error frozen_book = ''Market frozen.''"
  by (simp add: GetAllOrderBook_def frozen_answer_def frozen_Unmarshal_def frozen_book_def)

section \<open>Properties: results per currency pair\<close>







section \<open>Properties: the subscribe loops\<close>

lemma continued_Suc:
  assumes "continued cycle (Suc n) w = Some w1"
  obtains e w2 where "cycle w = Some ((True, e), w2)" and "continued cycle n w2 = Some w1"
  using assms by (auto split: option.splits prod.splits bool.splits)

lemma SubscribeOrderBook_if:
  "continued (ws symbol (mk u) stop) n w = Some w1 \<Longrightarrow>
   ws symbol (mk u) stop w1 = Some ((False, err), w') \<Longrightarrow>
   SubscribeOrderBook ws mk symbol u stop w = Some (err, w')"
proof (induction n arbitrary: w)
  case 0
  then show ?case
    by (simp add: SubscribeOrderBook.simps)
next
  case (Suc n)
  from Suc.prems(1) obtain e w2 where
    c: "ws symbol (mk u) stop w = Some ((True, e), w2)"
    and k: "continued (ws symbol (mk u) stop) n w2 = Some w1"
    by (rule continued_Suc)
  from Suc.IH [OF k Suc.prems(2)] c show ?case
    by (subst SubscribeOrderBook.simps) simp
qed

lemma SubscribeTicker_if:
  "continued (ws ''ticker'' (mk u) stop) n w = Some w1 \<Longrightarrow>
   ws ''ticker'' (mk u) stop w1 = Some ((False, err), w') \<Longrightarrow>
   SubscribeTicker ws mk u stop w = Some (err, w')"
proof (induction n arbitrary: w)
  case 0
  then show ?case
    by (simp add: SubscribeTicker.simps)
next
  case (Suc n)
  from Suc.prems(1) obtain e w2 where
    c: "ws ''ticker'' (mk u) stop w = Some ((True, e), w2)"
    and k: "continued (ws ''ticker'' (mk u) stop) n w2 = Some w1"
    by (rule continued_Suc)
  from Suc.IH [OF k Suc.prems(2)] c show ?case
    by (subst SubscribeTicker.simps) simp
qed

text \<open>
  One turn of either loop, for the fixpoint induction: a result of the loop body comes from
  a cycle that stopped, or from the recursive call after a cycle that continued.
\<close>

lemma loop_body_cases:
  assumes "(case cycle w of
              None \<Rightarrow> None
            | Some ((cont, err), w') \<Rightarrow> if \<not> cont then Some (err, w') else rec w') = Some res"
  obtains (stop) "cycle w = Some ((False, fst res), snd res)"
  | (continue) e w2 where "cycle w = Some ((True, e), w2)" and "rec w2 = Some res"
  using assms by (auto split: option.splits prod.splits if_splits)

lemma SubscribeOrderBook_only_if:
  assumes "SubscribeOrderBook ws mk symbol u stop w = Some res"
  shows "\<exists>n w1. continued (ws symbol (mk u) stop) n w = Some w1
          \<and> ws symbol (mk u) stop w1 = Some ((False, fst res), snd res)"
proof (rule SubscribeOrderBook.raw_induct
    [where P = "\<lambda>ws mk symbol u stop w res.
       \<exists>n w1. continued (ws symbol (mk u) stop) n w = Some w1
          \<and> ws symbol (mk u) stop w1 = Some ((False, fst res), snd res)", OF _ assms])
  fix S ws mk symbol u stop w res
  assume IH: "\<And>ws mk symbol u stop w res. S ws mk symbol u stop w = Some res \<Longrightarrow>
       \<exists>n w1. continued (ws symbol (mk u) stop) n w = Some w1
          \<and> ws symbol (mk u) stop w1 = Some ((False, fst res), snd res)"
    and step: "(case ws symbol (mk u) stop w of
        None \<Rightarrow> None
      | Some ((cont, err), w') \<Rightarrow>
          if \<not> cont then Some (err, w') else S ws mk symbol u stop w') = Some res"
  from step show "\<exists>n w1. continued (ws symbol (mk u) stop) n w = Some w1
          \<and> ws symbol (mk u) stop w1 = Some ((False, fst res), snd res)"
  proof (cases rule: loop_body_cases)
    case stop
    then have "continued (ws symbol (mk u) stop) 0 w = Some w
        \<and> ws symbol (mk u) stop w = Some ((False, fst res), snd res)"
      by simp
    then show ?thesis
      by blast
  next
    case (continue e w2)
    from IH [OF continue(2)] obtain n w1 where
      "continued (ws symbol (mk u) stop) n w2 = Some w1"
      "ws symbol (mk u) stop w1 = Some ((False, fst res), snd res)"
      by blast
    with continue(1) have "continued (ws symbol (mk u) stop) (Suc n) w = Some w1
        \<and> ws symbol (mk u) stop w1 = Some ((False, fst res), snd res)"
      by simp
    then show ?thesis
      by blast
  qed
qed

lemma SubscribeTicker_only_if:
  assumes "SubscribeTicker ws mk u stop w = Some res"
  shows "\<exists>n w1. continued (ws ''ticker'' (mk u) stop) n w = Some w1
          \<and> ws ''ticker'' (mk u) stop w1 = Some ((False, fst res), snd res)"
proof (rule SubscribeTicker.raw_induct
    [where P = "\<lambda>ws mk u stop w res.
       \<exists>n w1. continued (ws ''ticker'' (mk u) stop) n w = Some w1
          \<and> ws ''ticker'' (mk u) stop w1 = Some ((False, fst res), snd res)", OF _ assms])
  fix S ws mk u stop w res
  assume IH: "\<And>ws mk u stop w res. S ws mk u stop w = Some res \<Longrightarrow>
       \<exists>n w1. continued (ws ''ticker'' (mk u) stop) n w = Some w1
          \<and> ws ''ticker'' (mk u) stop w1 = Some ((False, fst res), snd res)"
    and step: "(case ws ''ticker'' (mk u) stop w of
        None \<Rightarrow> None
      | Some ((cont, err), w') \<Rightarrow>
          if \<not> cont then Some (err, w') else S ws mk u stop w') = Some res"
  from step show "\<exists>n w1. continued (ws ''ticker'' (mk u) stop) n w = Some w1
          \<and> ws ''ticker'' (mk u) stop w1 = Some ((False, fst res), snd res)"
  proof (cases rule: loop_body_cases)
    case stop
    then have "continued (ws ''ticker'' (mk u) stop) 0 w = Some w
        \<and> ws ''ticker'' (mk u) stop w = Some ((False, fst res), snd res)"
      by simp
    then show ?thesis
      by blast
  next
    case (continue e w2)
    from IH [OF continue(2)] obtain n w1 where
      "continued (ws ''ticker'' (mk u) stop) n w2 = Some w1"
      "ws ''ticker'' (mk u) stop w1 = Some ((False, fst res), snd res)"
      by blast
    with continue(1) have "continued (ws ''ticker'' (mk u) stop) (Suc n) w = Some w1
        \<and> ws ''ticker'' (mk u) stop w1 = Some ((False, fst res), snd res)"
      by simp
    then show ?thesis
      by blast
  qed
qed

lemma third_cycle_stops_continued:
  "continued (third_cycle_stops topic h c) 2 0 = Some 2"
  by (simp add: numeral_2_eq_2 third_cycle_stops_def)

text \<open>
  C2. A subscribe call (\<^verbatim>\<open>SubscribeOrderBook\<close>, \<^verbatim>\<open>SubscribeTicker\<close>) returns exactly when a
  connect cycle reports do-not-continue after any number of cycles that all reported
  continue, and what it returns is the error of that last cycle (none when that cycle
  reported none), in the world that cycle left.
\<close>

theorem subscribe_returns_error_of_final_cycle:
  "(SubscribeOrderBook ws mk symbol u stop w = Some (err, w')) =
     (\<exists>n w1. continued (ws symbol (mk u) stop) n w = Some w1
            \<and> ws symbol (mk u) stop w1 = Some ((False, err), w'))
   \<and> (SubscribeTicker ws mk' u' stop w = Some (err, w')) =
     (\<exists>n w1. continued (ws ''ticker'' (mk' u') stop) n w = Some w1
            \<and> ws ''ticker'' (mk' u') stop w1 = Some ((False, err), w'))"
proof (intro conjI iffI)
  assume "SubscribeOrderBook ws mk symbol u stop w = Some (err, w')"
  from SubscribeOrderBook_only_if [OF this]
  show "\<exists>n w1. continued (ws symbol (mk u) stop) n w = Some w1
            \<and> ws symbol (mk u) stop w1 = Some ((False, err), w')"
    by simp
next
  assume "\<exists>n w1. continued (ws symbol (mk u) stop) n w = Some w1
            \<and> ws symbol (mk u) stop w1 = Some ((False, err), w')"
  then show "SubscribeOrderBook ws mk symbol u stop w = Some (err, w')"
    using SubscribeOrderBook_if [of ws symbol mk u stop _ w _ err w'] by blast
next
  assume "SubscribeTicker ws mk' u' stop w = Some (err, w')"
  from SubscribeTicker_only_if [OF this]
  show "\<exists>n w1. continued (ws ''ticker'' (mk' u') stop) n w = Some w1
            \<and> ws ''ticker'' (mk' u') stop w1 = Some ((False, err), w')"
    by simp
next
  assume "\<exists>n w1. continued (ws ''ticker'' (mk' u') stop) n w = Some w1
            \<and> ws ''ticker'' (mk' u') stop w1 = Some ((False, err), w')"
  then show "SubscribeTicker ws mk' u' stop w = Some (err, w')"
    using SubscribeTicker_if [of ws mk' u' stop _ w _ err w'] by blast
qed

theorem subscribe_returns_error_of_final_cycle_witness:
  "SubscribeOrderBook third_cycle_stops (\<lambda>u. ''handler'') ''BTC_ETH'' () () 0
     = Some (Some (errors_New ''connection lost''), 3)"
proof -
  have "third_cycle_stops ''BTC_ETH'' ''handler'' () 2
          = Some ((False, Some (errors_New ''connection lost'')), 3)"
    by (simp add: third_cycle_stops_def)
  with third_cycle_stops_continued [of "''BTC_ETH''" "''handler''" "()"]
  have "\<exists>n w1. continued (third_cycle_stops ''BTC_ETH'' ''handler'' ()) n 0 = Some w1
          \<and> third_cycle_stops ''BTC_ETH'' ''handler'' () w1
              = Some ((False, Some (errors_New ''connection lost'')), 3)"
    by blast
  then show ?thesis
    using subscribe_returns_error_of_final_cycle
      [where ws = third_cycle_stops and mk = "\<lambda>u. ''handler''" and symbol = "''BTC_ETH''"
         and u = "()" and stop = "()" and w = 0
         and err = "Some (errors_New ''connection lost'')" and w' = 3, THEN conjunct1]
    by simp
qed

text \<open>
  C5. When a connect cycle of a subscribe call ends with continue, the call goes on as the
  same call in the world the cycle left: the next cycle is started there with the same
  topic, handler and control signal, nothing is done in between, and nothing is returned
  to the caller, the error of the finished cycle included.
\<close>

theorem continue_starts_next_cycle_at_once:
  "(ws symbol (mk u) stop w = Some ((True, err), w') \<longrightarrow>
      SubscribeOrderBook ws mk symbol u stop w = SubscribeOrderBook ws mk symbol u stop w'
      \<and> SubscribeOrderBook ws mk symbol u stop w =
          (case ws symbol (mk u) stop w' of
             None \<Rightarrow> None
           | Some ((cont, err2), w2) \<Rightarrow>
               if \<not> cont then Some (err2, w2)
               else SubscribeOrderBook ws mk symbol u stop w2))
   \<and> (ws ''ticker'' (mk' u') stop w = Some ((True, err), w') \<longrightarrow>
      SubscribeTicker ws mk' u' stop w = SubscribeTicker ws mk' u' stop w'
      \<and> SubscribeTicker ws mk' u' stop w =
          (case ws ''ticker'' (mk' u') stop w' of
             None \<Rightarrow> None
           | Some ((cont, err2), w2) \<Rightarrow>
               if \<not> cont then Some (err2, w2)
               else SubscribeTicker ws mk' u' stop w2))"
proof (intro conjI impI)
  assume c: "ws symbol (mk u) stop w = Some ((True, err), w')"
  then show 1: "SubscribeOrderBook ws mk symbol u stop w
                  = SubscribeOrderBook ws mk symbol u stop w'"
    by (subst SubscribeOrderBook.simps) simp
  show "SubscribeOrderBook ws mk symbol u stop w =
          (case ws symbol (mk u) stop w' of
             None \<Rightarrow> None
           | Some ((cont, err2), w2) \<Rightarrow>
               if \<not> cont then Some (err2, w2)
               else SubscribeOrderBook ws mk symbol u stop w2)"
    unfolding 1 by (rule SubscribeOrderBook.simps)
next
  assume c: "ws ''ticker'' (mk' u') stop w = Some ((True, err), w')"
  then show 1: "SubscribeTicker ws mk' u' stop w = SubscribeTicker ws mk' u' stop w'"
    by (subst SubscribeTicker.simps) simp
  show "SubscribeTicker ws mk' u' stop w =
          (case ws ''ticker'' (mk' u') stop w' of
             None \<Rightarrow> None
           | Some ((cont, err2), w2) \<Rightarrow>
               if \<not> cont then Some (err2, w2)
               else SubscribeTicker ws mk' u' stop w2)"
    unfolding 1 by (rule SubscribeTicker.simps)
qed

theorem continue_starts_next_cycle_at_once_witness:
  "third_cycle_stops ''ticker'' ''handler'' () 0 = Some ((True, None), 1)
   \<and> SubscribeTicker third_cycle_stops (\<lambda>u. ''handler'') () () 0
       = SubscribeTicker third_cycle_stops (\<lambda>u. ''handler'') () () 1"
proof -
  have c: "third_cycle_stops ''ticker'' ''handler'' () 0 = Some ((True, None), 1)"
    by (simp add: third_cycle_stops_def)
  then show ?thesis
    using continue_starts_next_cycle_at_once
      [where ws = third_cycle_stops and mk' = "\<lambda>u. ''handler''" and u' = "()"
         and stop = "()" and w = 0 and err = None and w' = 1, THEN conjunct2]
    by simp
qed

section \<open>Properties: a stop that is already indicated\<close>

lemma read_loop_stop:
  "indicates_stop w \<Longrightarrow> read_loop topic handler fs w = Some ((False, None), snd (poll w))"
  by (cases fs) (auto simp add: indicates_stop_def split: prod.splits)

lemma poll_delivered: "delivered (snd (poll w)) = delivered w"
  by (simp add: poll_def split: list.splits)

lemma connect_indicates_stop: "indicates_stop (snd (connect w)) = indicates_stop w"
  by (simp add: connect_def indicates_stop_def poll_def split: list.splits)

lemma connect_delivered: "delivered (snd (connect w)) = delivered w"
  by (simp add: connect_def split: list.splits)

text \<open>With a stop indicated, the cycle ends in Stopped, whatever the endpoint does.\<close>

lemma connect_cycle_stop:
  assumes "indicates_stop w"
  shows "\<exists>err w'. connect_cycle topic handler controlSignal w = Some ((False, err), w')
           \<and> (\<forall>e. fst (connect w) = Refused e \<longrightarrow> err = Some e \<and> delivered w' = delivered w)"
proof (cases "connect w")
  case (Pair a w1)
  from assms Pair have s: "indicates_stop w1"
    using connect_indicates_stop [of w] by simp
  from Pair have d: "delivered w1 = delivered w"
    using connect_delivered [of w] by simp
  show ?thesis
  proof (cases a)
    case (Refused e)
    with Pair s d show ?thesis
      by (simp add: connect_cycle_def)
  next
    case (Accepted fs)
    with Pair s show ?thesis
      by (simp add: connect_cycle_def read_loop_stop)
  qed
qed

text \<open>
  C4. A subscribe call whose control signal already indicates stop when the call is made
  (a stop instruction pending, or the signal closed) returns within one connect cycle: its
  first cycle reports do-not-continue and the call returns that cycle's error. When no
  connection was established in that cycle, the updates delivered to the caller are the
  same after the call as before it.
\<close>

theorem stop_indicated_returns_in_one_cycle:
  assumes "indicates_stop w"
  shows "(\<exists>err w'. connect_cycle symbol (mk u) stopCh w = Some ((False, err), w')
            \<and> SubscribeOrderBook connect_cycle mk symbol u stopCh w = Some (err, w')
            \<and> (\<forall>e. fst (connect w) = Refused e \<longrightarrow> delivered w' = delivered w))
       \<and> (\<exists>err w'. connect_cycle ''ticker'' (mk' u') stopCh w = Some ((False, err), w')
            \<and> SubscribeTicker connect_cycle mk' u' stopCh w = Some (err, w')
            \<and> (\<forall>e. fst (connect w) = Refused e \<longrightarrow> delivered w' = delivered w))"
proof
  from connect_cycle_stop [OF assms, of symbol "mk u" stopCh] obtain err w' where
    c: "connect_cycle symbol (mk u) stopCh w = Some ((False, err), w')"
    and d: "\<forall>e. fst (connect w) = Refused e \<longrightarrow> err = Some e \<and> delivered w' = delivered w"
    by blast
  from c have "SubscribeOrderBook connect_cycle mk symbol u stopCh w = Some (err, w')"
    by (subst SubscribeOrderBook.simps) simp
  with c d show "\<exists>err w'. connect_cycle symbol (mk u) stopCh w = Some ((False, err), w')
            \<and> SubscribeOrderBook connect_cycle mk symbol u stopCh w = Some (err, w')
            \<and> (\<forall>e. fst (connect w) = Refused e \<longrightarrow> delivered w' = delivered w)"
    by blast
next
  from connect_cycle_stop [OF assms, of "''ticker''" "mk' u'" stopCh] obtain err w' where
    c: "connect_cycle ''ticker'' (mk' u') stopCh w = Some ((False, err), w')"
    and d: "\<forall>e. fst (connect w) = Refused e \<longrightarrow> err = Some e \<and> delivered w' = delivered w"
    by blast
  from c have "SubscribeTicker connect_cycle mk' u' stopCh w = Some (err, w')"
    by (subst SubscribeTicker.simps) simp
  with c d show "\<exists>err w'. connect_cycle ''ticker'' (mk' u') stopCh w = Some ((False, err), w')
            \<and> SubscribeTicker connect_cycle mk' u' stopCh w = Some (err, w')
            \<and> (\<forall>e. fst (connect w) = Refused e \<longrightarrow> delivered w' = delivered w)"
    by blast
qed

theorem stop_indicated_returns_in_one_cycle_witness:
  "indicates_stop stop_pending_refused
   \<and> SubscribeOrderBook connect_cycle deliver ''BTC_ETH'' () () stop_pending_refused
       = Some (Some (errors_New ''connection refused''),
               stop_pending_refused\<lparr>endpoint := []\<rparr>)
   \<and> indicates_stop closed_accepted
   \<and> SubscribeOrderBook connect_cycle deliver ''BTC_ETH'' () () closed_accepted
       = Some (None, closed_accepted\<lparr>endpoint := []\<rparr>)"
proof -
  have s1: "indicates_stop stop_pending_refused" and s2: "indicates_stop closed_accepted"
    by (simp_all add: indicates_stop_def poll_def stop_pending_refused_def closed_accepted_def)
  have c1: "connect_cycle ''BTC_ETH'' (deliver ()) () stop_pending_refused
              = Some ((False, Some (errors_New ''connection refused'')),
                      stop_pending_refused\<lparr>endpoint := []\<rparr>)"
    by (simp add: connect_cycle_def connect_def indicates_stop_def poll_def
        stop_pending_refused_def)
  have c2: "connect_cycle ''BTC_ETH'' (deliver ()) () closed_accepted
              = Some ((False, None), closed_accepted\<lparr>endpoint := []\<rparr>)"
    by (simp add: connect_cycle_def connect_def poll_def closed_accepted_def)
  from stop_indicated_returns_in_one_cycle [OF s1, of "''BTC_ETH''" deliver "()" "()", THEN conjunct1]
    c1
  have r1: "SubscribeOrderBook connect_cycle deliver ''BTC_ETH'' () () stop_pending_refused
              = Some (Some (errors_New ''connection refused''),
                      stop_pending_refused\<lparr>endpoint := []\<rparr>)"
    by auto
  from stop_indicated_returns_in_one_cycle [OF s2, of "''BTC_ETH''" deliver "()" "()", THEN conjunct1]
    c2
  have r2: "SubscribeOrderBook connect_cycle deliver ''BTC_ETH'' () () closed_accepted
              = Some (None, closed_accepted\<lparr>endpoint := []\<rparr>)"
    by auto
  from s1 s2 r1 r2 show ?thesis
    by simp
qed

section \<open>Properties: nonces of sequential signed commands\<close>








end
